theory Spec2Isabelle
  imports Complex_Main "HOL-Library.Word"
begin

section \<open>Values shared by the mobile wrapper and the light-client backend\<close>

text \<open>
  A Go \<open>error\<close> is an interface value; the only dynamic type the code at hand tells
  apart is \<open>*params.ConfigCompatError\<close> (by a type assertion in \<open>les.New\<close>), of which it
  reads the field \<open>RewindTo\<close> (a \<open>uint64\<close>) through the pointer, which is taken to be not nil,
  as \<open>core.SetupGenesisBlock\<close> hands it out. Every other error is known by its message.
  A nil error is \<open>None\<close> of \<open>go_error option\<close>.
\<close>

datatype go_error =
    ConfigCompatError (RewindTo: "64 word")
  | errorString string

datatype SyncMode = FullSync | FastSync | LightSync

text \<open>
  \<open>params.ChainConfig\<close> is declared outside of the files at hand and is only passed
  around here, so it is the type parameter \<open>'c\<close>. Of \<open>core.Genesis\<close> the code touches the
  field \<open>Config\<close> (a pointer) alone; \<open>Alloc\<close> stands for the fields it leaves as parsed.
\<close>

record 'c Genesis =
  Config :: "'c option"
  Alloc :: string

record gasprice_Config =
  Blocks :: int
  Percentile :: int
  Default :: "int option"

record 'c eth_Config =
  Genesis :: "'c Genesis option"
  NetworkId :: "64 word"
  SyncMode :: SyncMode
  DatabaseCache :: int
  GasPrice :: "int option"
  GPO :: gasprice_Config

section \<open>mobile/geth.go: \<open>NodeConfig\<close> and \<open>NewNode\<close>\<close>

type_synonym discv5_Node = string

record Enodes =
  nodes :: "discv5_Node list"

text \<open>
  \<open>NetworkChainNetworkID\<close> is an \<open>int64\<close> that the code converts with \<open>uint64(...)\<close>: the
  same 64 bits, so one word type serves both. \<open>MaxPeers\<close> is a Go \<open>int\<close> that is only
  compared with 0 and copied. \<open>BootstrapNodes\<close> is a pointer and may be nil.
\<close>

record NodeConfig =
  BootstrapNodes :: "Enodes option"
  MaxPeers :: int
  NetworkChainEnabled :: bool
  NetworkChainNetworkID :: "64 word"
  NetworkChainGenesis :: string
  NetworkChainDatabaseCache :: int
  NetworkChainNetStats :: string
  WhisperEnabled :: bool

datatype nat_Interface = nat_Any

record p2p_Config =
  NoDiscovery :: bool
  DiscoveryV5 :: bool
  DiscoveryV5Addr :: string
  BootstrapNodesV5 :: "discv5_Node list"
  ListenAddr :: string
  NAT :: nat_Interface
  P2P_MaxPeers :: int

record node_Config =
  Name :: string
  Version :: string
  DataDir :: string
  KeyStoreDir :: string
  P2P :: p2p_Config

text \<open>
  The three service constructors \<open>NewNode\<close> registers. Each is a closure; what it closes
  over is what the constructor carries: the \<open>eth.Config\<close> handed to \<open>les.New\<close>, the
  netstats connection string.
\<close>

datatype 'c service =
    les_New "'c eth_Config"
  | ethstats_New string
  | whisper_New

text \<open>
  \<open>node.Node\<close> is declared in the \<open>node\<close> package, outside of the files at hand. A stack is
  the configuration it was created from and the constructors registered so far, in order.
\<close>

record 'c node_Node =
  config :: node_Config
  serviceFuncs :: "'c service list"

text \<open>
  What \<open>NewNode\<close> takes from other packages is a parameter of the model: the constants
  (\<open>clientIdentifier\<close>, \<open>params.Version\<close>, \<open>params.DiscoveryV5Bootnodes\<close>,
  \<open>params.TestnetChainConfig\<close>, \<open>eth.DefaultConfig\<close>), the JSON text that
  \<open>TestnetGenesis()\<close> returns (\<open>json.Marshal\<close> of the default testnet genesis block), and
  the calls that may fail: \<open>node.New\<close> and \<open>Register\<close> (nil, or the error), and
  \<open>json.Unmarshal\<close> into a fresh \<open>core.Genesis\<close> (the genesis, or the error's message).
\<close>

record 'c mobile_env =
  clientIdentifier :: string
  params_Version :: string
  params_DiscoveryV5Bootnodes :: "string list"
  discv5_MustParseNode :: "string \<Rightarrow> discv5_Node"
  filepath_Join :: "string \<Rightarrow> string \<Rightarrow> string"
  node_New_err :: "node_Config \<Rightarrow> go_error option"
  Register_err :: "'c node_Node \<Rightarrow> 'c service \<Rightarrow> string option"
  json_Unmarshal :: "string \<Rightarrow> string + 'c Genesis"
  TestnetGenesis :: string
  params_TestnetChainConfig :: 'c
  eth_DefaultConfig :: "'c eth_Config"

definition FoundationBootnodes :: "'c mobile_env \<Rightarrow> Enodes" where
  "FoundationBootnodes E =
     \<lparr>nodes = map (discv5_MustParseNode E) (params_DiscoveryV5Bootnodes E)\<rparr>"

definition defaultNodeConfig :: "'c mobile_env \<Rightarrow> NodeConfig" where
  "defaultNodeConfig E =
     \<lparr>BootstrapNodes = Some (FoundationBootnodes E),
      MaxPeers = 25,
      NetworkChainEnabled = True,
      NetworkChainNetworkID = 1,
      NetworkChainGenesis = '''',
      NetworkChainDatabaseCache = 16,
      NetworkChainNetStats = '''',
      WhisperEnabled = False\<rparr>"

definition NewNodeConfig :: "'c mobile_env \<Rightarrow> NodeConfig" where
  "NewNodeConfig E = defaultNodeConfig E"

definition Size :: "Enodes \<Rightarrow> nat" where
  "Size e = length (nodes e)"

text \<open>
  Lines 101 to 109 of \<open>NewNode\<close>: a nil \<open>config\<close> becomes a fresh copy of the defaults, a
  zero \<open>MaxPeers\<close> and a nil or empty \<open>BootstrapNodes\<close> are replaced by the defaults'.
\<close>

definition useDefaults :: "'c mobile_env \<Rightarrow> NodeConfig option \<Rightarrow> NodeConfig" where
  "useDefaults E cfg =
     (let c0 = (case cfg of None \<Rightarrow> NewNodeConfig E | Some c \<Rightarrow> c);
          c1 = (if MaxPeers c0 = 0
                then c0\<lparr>MaxPeers := MaxPeers (defaultNodeConfig E)\<rparr> else c0)
      in case BootstrapNodes c1 of
           None \<Rightarrow> c1\<lparr>BootstrapNodes := BootstrapNodes (defaultNodeConfig E)\<rparr>
         | Some e \<Rightarrow>
             if Size e = 0
             then c1\<lparr>BootstrapNodes := BootstrapNodes (defaultNodeConfig E)\<rparr>
             else c1)"

text \<open>
  Lines 111 to 125: the configuration of the networking stack. After \<open>useDefaults\<close> the
  pointer \<open>BootstrapNodes\<close> is never nil (lemma \<open>useDefaults_BootstrapNodes\<close>), so the
  \<open>None\<close> branch of the dereference \<open>config.BootstrapNodes.nodes\<close> is never taken.
\<close>

definition nodeConf :: "'c mobile_env \<Rightarrow> string \<Rightarrow> NodeConfig \<Rightarrow> node_Config" where
  "nodeConf E datadir c =
     \<lparr>Name = clientIdentifier E,
      Version = params_Version E,
      DataDir = datadir,
      KeyStoreDir = filepath_Join E datadir ''keystore'',
      P2P = \<lparr>NoDiscovery = True,
             DiscoveryV5 = True,
             DiscoveryV5Addr = '':0'',
             BootstrapNodesV5 = (case BootstrapNodes c of None \<Rightarrow> [] | Some e \<Rightarrow> nodes e),
             ListenAddr = '':0'',
             NAT = nat_Any,
             P2P_MaxPeers = MaxPeers c\<rparr>\<rparr>"

definition node_New :: "'c mobile_env \<Rightarrow> node_Config \<Rightarrow> go_error + 'c node_Node" where
  "node_New E conf =
     (case node_New_err E conf of
        Some err \<Rightarrow> Inl err
      | None \<Rightarrow> Inr \<lparr>config = conf, serviceFuncs = []\<rparr>)"

definition Register :: "'c mobile_env \<Rightarrow> 'c node_Node \<Rightarrow> 'c service \<Rightarrow> string + 'c node_Node" where
  "Register E stack constructor =
     (case Register_err E stack constructor of
        Some msg \<Rightarrow> Inl msg
      | None \<Rightarrow> Inr (stack\<lparr>serviceFuncs := serviceFuncs stack @ [constructor]\<rparr>))"

text \<open>
  Lines 131 to 145: the genesis to seed the chain with, and the configuration as the block
  leaves it (it writes \<open>NetworkChainNetworkID\<close> through the caller's pointer).
\<close>

definition parseGenesis ::
  "'c mobile_env \<Rightarrow> NodeConfig \<Rightarrow> go_error + ('c Genesis option \<times> NodeConfig)" where
  "parseGenesis E c =
     (if NetworkChainGenesis c \<noteq> '''' then
        (case json_Unmarshal E (NetworkChainGenesis c) of
           Inl msg \<Rightarrow> Inl (errorString (''invalid genesis spec: '' @ msg))
         | Inr genesis \<Rightarrow>
             if NetworkChainGenesis c = TestnetGenesis E then
               Inr (Some (genesis\<lparr>Config := Some (params_TestnetChainConfig E)\<rparr>),
                    if NetworkChainNetworkID c = 1
                    then c\<lparr>NetworkChainNetworkID := 3\<rparr> else c)
             else Inr (Some genesis, c))
      else Inr (None, c))"

text \<open>Lines 148 to 152: the configuration the light-client service is created with.\<close>

definition ethConf :: "'c mobile_env \<Rightarrow> 'c Genesis option \<Rightarrow> NodeConfig \<Rightarrow> 'c eth_Config" where
  "ethConf E genesis c =
     (eth_DefaultConfig E)
       \<lparr>Genesis := genesis,
        SyncMode := LightSync,
        NetworkId := NetworkChainNetworkID c,
        DatabaseCache := NetworkChainDatabaseCache c\<rparr>"

text \<open>Lines 147 to 177: the services, registered in order; the first failure returns.\<close>

definition registerServices ::
  "'c mobile_env \<Rightarrow> 'c Genesis option \<Rightarrow> NodeConfig \<Rightarrow> 'c node_Node \<Rightarrow> go_error + 'c node_Node" where
  "registerServices E genesis c rawStack =
     (let afterLes =
        (if NetworkChainEnabled c then
           (case Register E rawStack (les_New (ethConf E genesis c)) of
              Inl msg \<Rightarrow> Inl (errorString (''networkchain init: '' @ msg))
            | Inr s1 \<Rightarrow>
                if NetworkChainNetStats c \<noteq> '''' then
                  (case Register E s1 (ethstats_New (NetworkChainNetStats c)) of
                     Inl msg \<Rightarrow> Inl (errorString (''netstats init: '' @ msg))
                   | Inr s2 \<Rightarrow> Inr s2)
                else Inr s1)
         else Inr rawStack)
      in case afterLes of
           Inl err \<Rightarrow> Inl err
         | Inr s \<Rightarrow>
             if WhisperEnabled c then
               (case Register E s whisper_New of
                  Inl msg \<Rightarrow> Inl (errorString (''whisper init: '' @ msg))
                | Inr s3 \<Rightarrow> Inr s3)
             else Inr s)"

text \<open>
  \<open>NewNode\<close>: the result, and the configuration object as the call leaves it (the caller's
  own when a non-nil pointer was passed).
\<close>

definition NewNode ::
  "'c mobile_env \<Rightarrow> string \<Rightarrow> NodeConfig option \<Rightarrow> (go_error + 'c node_Node) \<times> NodeConfig" where
  "NewNode E datadir cfg =
     (let c = useDefaults E cfg in
      case node_New E (nodeConf E datadir c) of
        Inl err \<Rightarrow> (Inl err, c)
      | Inr rawStack \<Rightarrow>
          (case parseGenesis E c of
             Inl err \<Rightarrow> (Inl err, c)
           | Inr (genesis, c') \<Rightarrow> (registerServices E genesis c' rawStack, c')))"

section \<open>les/backend.go: \<open>New\<close>\<close>

type_synonym common_Hash = "256 word"

text \<open>
  \<open>New\<close> builds the light client out of calls into other packages. The model keeps the
  calls it makes, in order, with the arguments that matter, and takes the outcome of each
  call that returns something \<open>New\<close> looks at as a parameter: the error of \<open>eth.CreateDB\<close>,
  the three results of \<open>core.SetupGenesisBlock\<close>, and the errors of \<open>light.NewLightChain\<close>
  and \<open>NewProtocolManager\<close>.
\<close>

record 'c les_env =
  CreateDB_err :: "go_error option"
  SetupGenesisBlock_chainConfig :: 'c
  SetupGenesisBlock_genesisHash :: common_Hash
  SetupGenesisBlock_genesisErr :: "go_error option"
  NewLightChain_err :: "go_error option"
  NewProtocolManager_err :: "go_error option"

datatype 'c call =
    eth_CreateDB string
  | core_SetupGenesisBlock "'c Genesis option"
  | newPeerSet
  | newRequestDistributor
  | eth_CreateConsensusEngine 'c
  | NewLesTxRelay
  | newServerPool
  | newRetrieveManager
  | NewLesOdr
  | light_NewLightChain 'c
  | SetHead "64 word"
  | core_WriteChainConfig common_Hash 'c
  | light_NewTxPool 'c
  | NewProtocolManager 'c "64 word"
  | gasprice_NewOracle gasprice_Config

text \<open>
  Of the \<open>LightNetworkChain\<close> that \<open>New\<close> returns, the fields with a value of their own:
  the chain configuration, the network identifier and the parameters of the gas price
  oracle. The other fields hold what the calls listed above returned.
\<close>

record 'c LightNetworkChain =
  chainConfig :: 'c
  networkId :: "64 word"
  gpo :: gasprice_Config

definition gpoParams :: "'c eth_Config \<Rightarrow> gasprice_Config" where
  "gpoParams cfg =
     (if Default (GPO cfg) = None then (GPO cfg)\<lparr>Default := GasPrice cfg\<rparr> else GPO cfg)"

text \<open>
  Lines 86 to 127 of \<open>New\<close>, reached with the results of \<open>core.SetupGenesisBlock\<close> and
  the calls made so far. The rewind of lines 111 to 115 is the branch of the type assertion
  \<open>genesisErr.(*params.ConfigCompatError)\<close> that succeeds.
\<close>

definition construct ::
  "'c les_env \<Rightarrow> 'c eth_Config \<Rightarrow> 'c \<Rightarrow> common_Hash \<Rightarrow> go_error option \<Rightarrow> 'c call list
     \<Rightarrow> (go_error + 'c LightNetworkChain) \<times> 'c call list" where
  "construct E cfg chainCfg genesisHash genesisErr t1 =
     (let t2 = t1 @ [newPeerSet, newRequestDistributor,
                     eth_CreateConsensusEngine chainCfg, NewLesTxRelay,
                     newServerPool, newRetrieveManager, NewLesOdr,
                     light_NewLightChain chainCfg]
      in case NewLightChain_err E of
           Some err \<Rightarrow> (Inl err, t2)
         | None \<Rightarrow>
            (let t3 = (case genesisErr of
                         Some (ConfigCompatError rewindTo) \<Rightarrow>
                           t2 @ [SetHead rewindTo, core_WriteChainConfig genesisHash chainCfg]
                       | _ \<Rightarrow> t2);
                 t4 = t3 @ [light_NewTxPool chainCfg,
                            NewProtocolManager chainCfg (NetworkId cfg)]
             in case NewProtocolManager_err E of
                  Some err \<Rightarrow> (Inl err, t4)
                | None \<Rightarrow>
                    (Inr \<lparr>chainConfig = chainCfg,
                          networkId = NetworkId cfg,
                          gpo = gpoParams cfg\<rparr>,
                     t4 @ [gasprice_NewOracle (gpoParams cfg)])))"

text \<open>
  \<open>New\<close>: the result and the calls made. Line 83 returns \<open>genesisErr\<close> when it is not nil
  and not a \<open>*params.ConfigCompatError\<close>, which of the two kinds of error is the other one.
\<close>

definition New ::
  "'c les_env \<Rightarrow> 'c eth_Config \<Rightarrow> (go_error + 'c LightNetworkChain) \<times> 'c call list" where
  "New E cfg =
     (let t0 = [eth_CreateDB ''lightchaindata''] in
      case CreateDB_err E of
        Some err \<Rightarrow> (Inl err, t0)
      | None \<Rightarrow>
         (let chainCfg = SetupGenesisBlock_chainConfig E;
              genesisHash = SetupGenesisBlock_genesisHash E;
              genesisErr = SetupGenesisBlock_genesisErr E;
              t1 = t0 @ [core_SetupGenesisBlock (Genesis cfg)]
          in case genesisErr of
               Some (errorString msg) \<Rightarrow> (Inl (errorString msg), t1)
             | _ \<Rightarrow> construct E cfg chainCfg genesisHash genesisErr t1))"

section \<open>Peer Set and Request Distributor\<close>

text \<open>
  \<open>New\<close> creates the peer set and the request distributor (\<open>newPeerSet\<close>,
  \<open>newRequestDistributor\<close>, lines 88 and 96 of les/backend.go); the files that implement
  them are not among the sources. What follows is written from the specification's
  sections 3, 4.1 and 4.2.
\<close>

text \<open>Modelled from the spec: the error taxonomy of section 7; the code that raises these errors is missing.\<close>

datatype core_error =
    DuplicatePeer | UnknownPeer | NoEligiblePeer | ResponseRejected
  | RequestTimedOut | RetriesExhausted | HandshakeFailed

type_synonym peer_id = nat

text \<open>
  Modelled from the spec: the Peer of section 3 (the peer type is missing): a stable
  identifier, capability flags (protocol version, announced head block and relative chain
  difficulty), a bounded concurrency budget \<open>capacity\<close> with the part of it that is free,
  a score and a last-seen time. The free capacity is an integer, so that "never negative"
  is a property and not a matter of the type.
\<close>

record peer =
  peerID :: peer_id
  protocolVersion :: nat
  headBlock :: nat
  chainDifficulty :: nat
  capacity :: nat
  free :: int
  score :: int
  lastSeen :: nat

text \<open>
  Modelled from the spec: a Peer is "created on successful handshake" (its constructor is
  missing); a peer that has served nothing yet has its whole budget free.
\<close>

definition newPeer :: "peer_id \<Rightarrow> nat \<Rightarrow> nat \<Rightarrow> nat \<Rightarrow> nat \<Rightarrow> nat \<Rightarrow> peer" where
  "newPeer i v h td budget now =
     \<lparr>peerID = i, protocolVersion = v, headBlock = h, chainDifficulty = td,
      capacity = budget, free = int budget, score = 0, lastSeen = now\<rparr>"

text \<open>
  Modelled from the spec: "every mutation publishes an event" (the subscription mechanism is
  missing); the events published so far are kept in order.
\<close>

datatype peer_event = PeerAdded peer_id | PeerRemoved peer_id

text \<open>
  Modelled from the spec: the Peer Set of section 3 (the type behind \<open>newPeerSet\<close> is
  missing), "mapping from peer identifier to Peer". It is kept as the list of its entries
  in order of registration, a representation in which two entries for one identifier can
  be written down, so that their absence is a property to prove.
\<close>

record peerSet =
  members :: "peer list"
  published :: "peer_event list"

text \<open>Modelled from the spec: the peer set that \<open>newPeerSet\<close> returns (missing), with no peer.\<close>

definition emptyPeerSet :: peerSet where
  "emptyPeerSet = \<lparr>members = [], published = []\<rparr>"

text \<open>
  Modelled from the spec: \<open>register(peer)\<close> of section 4.1 (missing): "fails with
  DuplicatePeer if the identifier already exists; otherwise adds the peer and notifies
  subscribers".
\<close>

definition register :: "peerSet \<Rightarrow> peer \<Rightarrow> core_error + peerSet" where
  "register ps p =
     (if peerID p \<in> set (map peerID (members ps)) then Inl DuplicatePeer
      else Inr (ps\<lparr>members := members ps @ [p],
                  published := published ps @ [PeerAdded (peerID p)]\<rparr>))"

text \<open>
  Modelled from the spec: \<open>unregister(id)\<close> of section 4.1 (missing): "removes the peer if
  present ...; fails with UnknownPeer if absent". The release of the requests assigned to
  the peer is the distributor's reaction to the removal (\<open>peerDisconnected\<close> below).
\<close>

definition unregister :: "peerSet \<Rightarrow> peer_id \<Rightarrow> core_error + peerSet" where
  "unregister ps i =
     (if i \<in> set (map peerID (members ps))
      then Inr (ps\<lparr>members := filter (\<lambda>p. peerID p \<noteq> i) (members ps),
                  published := published ps @ [PeerRemoved i]\<rparr>)
      else Inl UnknownPeer)"

text \<open>
  Modelled from the spec: \<open>allPeers()\<close> of section 4.1 (missing): the "snapshot sequence of
  currently connected peers satisfying a capability predicate".
\<close>

definition allPeers :: "peerSet \<Rightarrow> (peer \<Rightarrow> bool) \<Rightarrow> peer list" where
  "allPeers ps predicate = filter predicate (members ps)"

text \<open>
  Modelled from the spec: the choice of a best element, used by \<open>bestPeer\<close> and by the
  distributor's selection (both missing). The first element wins unless a later one is
  strictly better.
\<close>

fun pickBest :: "('a \<Rightarrow> 'a \<Rightarrow> bool) \<Rightarrow> 'a list \<Rightarrow> 'a option" where
  "pickBest better [] = None"
| "pickBest better (x # xs) =
     (case pickBest better xs of
        None \<Rightarrow> Some x
      | Some y \<Rightarrow> if better y x then Some y else Some x)"

text \<open>
  Modelled from the spec: \<open>bestPeer(predicate)\<close> of section 4.1 (missing). The spec does not
  say by what measure a peer is best, so the comparison is a parameter.
\<close>

definition bestPeer :: "(peer \<Rightarrow> peer \<Rightarrow> bool) \<Rightarrow> peerSet \<Rightarrow> (peer \<Rightarrow> bool) \<Rightarrow> peer option" where
  "bestPeer better ps predicate = pickBest better (allPeers ps predicate)"

text \<open>
  Modelled from the spec: a sequence of registrations and unregistrations, as in the first
  testable property of section 8. An operation that fails leaves the set as it was.
\<close>

datatype peerSet_op = DoRegister peer | DoUnregister peer_id

text \<open>Modelled from the spec: the peer set after such a sequence (the callers are missing).\<close>

fun applyOps :: "peerSet \<Rightarrow> peerSet_op list \<Rightarrow> peerSet" where
  "applyOps ps [] = ps"
| "applyOps ps (DoRegister p # ops) =
     applyOps (case register ps p of Inl err \<Rightarrow> ps | Inr ps' \<Rightarrow> ps') ops"
| "applyOps ps (DoUnregister i # ops) =
     applyOps (case unregister ps i of Inl err \<Rightarrow> ps | Inr ps' \<Rightarrow> ps') ops"

text \<open>Modelled from the spec: the Request of section 3 (missing): a kind, parameters and a deadline.\<close>

datatype request_kind = HeaderByNumber | TrieNodeByHash | ReceiptsByBlock | CodeByHash

text \<open>Modelled from the spec: the Request itself (missing), "immutable once issued".\<close>

record request =
  kind :: request_kind
  params :: nat
  deadline :: nat

text \<open>
  Modelled from the spec: the Distribution Entry of section 3 (missing): the request, its
  sequence number, and what \<open>submit\<close> was given to select a peer with: the \<open>canSend\<close>
  predicate and the cost function.
\<close>

record entry =
  seqNo :: nat
  req :: request
  canSend :: "peer \<Rightarrow> bool"
  cost :: "peer \<Rightarrow> nat"

text \<open>
  Modelled from the spec: a request that has been assigned (the distributor's bookkeeping is
  missing): the entry, the peer it was assigned to and the cost taken from that peer.
\<close>

record assignment =
  sentEntry :: entry
  sentPeer :: peer_id
  sentCost :: nat

text \<open>
  Modelled from the spec: the Request Distributor of section 4.2 (the type behind
  \<open>newRequestDistributor\<close> is missing): the peer set it enumerates, the pending entries in
  submission order, the assignments in flight and the next sequence number.
\<close>

record distributor =
  peers :: peerSet
  pending :: "entry list"
  inflight :: "assignment list"
  nextSeq :: nat

text \<open>
  Modelled from the spec: "every peer with free capacity" (section 4.2; missing). The
  distributor is to "respect each peer's concurrency budget" and an assignment takes the
  request's cost from the free capacity, so a peer has free capacity for a request when
  some of its capacity is free and the free part covers the cost.
\<close>

definition hasFreeCapacity :: "peer \<Rightarrow> nat \<Rightarrow> bool" where
  "hasFreeCapacity p c = (0 < free p \<and> int c \<le> free p)"

text \<open>Modelled from the spec: an eligible peer (missing): one with free capacity that \<open>canSend\<close> accepts.\<close>

definition eligible :: "entry \<Rightarrow> peer \<Rightarrow> bool" where
  "eligible e p = (hasFreeCapacity p (cost e p) \<and> canSend e p)"

text \<open>
  Modelled from the spec: the "current load-to-capacity ratio" of a peer (missing): the part
  of the budget that is taken, over the budget. It is asked of eligible peers only, whose
  budget is positive.
\<close>

definition loadRatio :: "peer \<Rightarrow> rat" where
  "loadRatio p = (of_nat (capacity p) - of_int (free p)) / of_nat (capacity p)"

text \<open>
  Modelled from the spec: "the lowest current load-to-capacity ratio, breaking ties by best
  recent score" (missing).
\<close>

definition preferred :: "peer \<Rightarrow> peer \<Rightarrow> bool" where
  "preferred p q =
     (loadRatio p < loadRatio q \<or> (loadRatio p = loadRatio q \<and> score q < score p))"

text \<open>Modelled from the spec: the peer selection of section 4.2 (missing) for one entry.\<close>

definition selectPeer :: "peer list \<Rightarrow> entry \<Rightarrow> peer option" where
  "selectPeer ps e = pickBest preferred (filter (eligible e) ps)"

text \<open>
  Modelled from the spec: capacity accounting (missing): "assigning a request decrements the
  peer's free capacity by the request's cost".
\<close>

definition charge :: "peer list \<Rightarrow> peer_id \<Rightarrow> nat \<Rightarrow> peer list" where
  "charge ps i c = map (\<lambda>p. if peerID p = i then p\<lparr>free := free p - int c\<rparr> else p) ps"

text \<open>Modelled from the spec: capacity accounting (missing): completion "restores it".\<close>

definition restore :: "peer list \<Rightarrow> peer_id \<Rightarrow> nat \<Rightarrow> peer list" where
  "restore ps i c = map (\<lambda>p. if peerID p = i then p\<lparr>free := free p + int c\<rparr> else p) ps"

text \<open>
  Modelled from the spec: the scan of section 4.2 (missing): the pending entries in
  submission order, each assigned to its selected peer, whose capacity is charged before
  the next entry is looked at, or left queued when no peer is eligible. The result is the
  peers, the entries still queued and the new assignments.
\<close>

fun scan :: "peer list \<Rightarrow> entry list \<Rightarrow> peer list \<times> entry list \<times> assignment list" where
  "scan ps [] = (ps, [], [])"
| "scan ps (e # es) =
     (case selectPeer ps e of
        None \<Rightarrow> (case scan ps es of (ps', queued, sent) \<Rightarrow> (ps', e # queued, sent))
      | Some p \<Rightarrow>
          (case scan (charge ps (peerID p) (cost e p)) es of
             (ps', queued, sent) \<Rightarrow>
               (ps', queued,
                \<lparr>sentEntry = e, sentPeer = peerID p, sentCost = cost e p\<rparr> # sent)))"

text \<open>Modelled from the spec: the re-evaluation of the queue (missing) that every change triggers.\<close>

definition reevaluate :: "distributor \<Rightarrow> distributor" where
  "reevaluate d =
     (case scan (members (peers d)) (pending d) of
        (ps', queued, sent) \<Rightarrow>
          d\<lparr>peers := (peers d)\<lparr>members := ps'\<rparr>,
            pending := queued,
            inflight := inflight d @ sent\<rparr>)"

text \<open>Modelled from the spec: the distributor that \<open>newRequestDistributor\<close> returns (missing).\<close>

definition newDistributor :: distributor where
  "newDistributor = \<lparr>peers = emptyPeerSet, pending = [], inflight = [], nextSeq = 0\<rparr>"

text \<open>
  Modelled from the spec: \<open>submit(request, canSend predicate, cost function)\<close> of section 4.2
  (missing); the handle is the entry's sequence number. A request submitted while a peer is
  free is sent at once (the three-peer scenario of section 8), so the queue is re-evaluated.
\<close>

definition submit ::
  "distributor \<Rightarrow> request \<Rightarrow> (peer \<Rightarrow> bool) \<Rightarrow> (peer \<Rightarrow> nat) \<Rightarrow> nat \<times> distributor" where
  "submit d r cs c =
     (nextSeq d,
      reevaluate
        (d\<lparr>pending := pending d @ [\<lparr>seqNo = nextSeq d, req = r, canSend = cs, cost = c\<rparr>],
           nextSeq := nextSeq d + 1\<rparr>))"

text \<open>
  Modelled from the spec: cancellation (missing): "a caller may withdraw a still-pending
  request; this is a no-op once a peer has been assigned".
\<close>

definition cancel :: "distributor \<Rightarrow> nat \<Rightarrow> distributor" where
  "cancel d h = d\<lparr>pending := filter (\<lambda>e. seqNo e \<noteq> h) (pending d)\<rparr>"

text \<open>Modelled from the spec: the three ways a sent request completes (section 4.2; missing).\<close>

datatype outcome = Succeeded | Failed | Cancelled

text \<open>Modelled from the spec: looking up the assignment of a handle (missing) and taking it out.\<close>

fun takeOut :: "nat \<Rightarrow> assignment list \<Rightarrow> assignment option \<times> assignment list" where
  "takeOut h [] = (None, [])"
| "takeOut h (a # as) =
     (if seqNo (sentEntry a) = h then (Some a, as)
      else (case takeOut h as of (found, rest) \<Rightarrow> (found, a # rest)))"

text \<open>
  Modelled from the spec: completion (missing): "completion (success, failure, or
  cancellation) restores it and triggers re-evaluation of the queue". A handle that is not
  in flight completes nothing.
\<close>

definition complete :: "distributor \<Rightarrow> nat \<Rightarrow> outcome \<Rightarrow> distributor" where
  "complete d h out =
     (case takeOut h (inflight d) of
        (None, rest) \<Rightarrow> d
      | (Some a, rest) \<Rightarrow>
          reevaluate
            (d\<lparr>peers := (peers d)\<lparr>members :=
                            restore (members (peers d)) (sentPeer a) (sentCost a)\<rparr>,
               inflight := rest\<rparr>))"

text \<open>Modelled from the spec: a peer-set change (missing): a registration, then the re-evaluation.\<close>

definition peerConnected :: "distributor \<Rightarrow> peer \<Rightarrow> distributor" where
  "peerConnected d p =
     (case register (peers d) p of
        Inl err \<Rightarrow> d
      | Inr ps' \<Rightarrow> reevaluate (d\<lparr>peers := ps'\<rparr>))"

text \<open>
  Modelled from the spec: a peer-set change (missing): an unregistration, which "releases any
  requests currently assigned to it back to the Distributor for reassignment" (they go back
  to their places by sequence number), then the re-evaluation.
\<close>

definition peerDisconnected :: "distributor \<Rightarrow> peer_id \<Rightarrow> distributor" where
  "peerDisconnected d i =
     (case unregister (peers d) i of
        Inl err \<Rightarrow> d
      | Inr ps' \<Rightarrow>
          reevaluate
            (d\<lparr>peers := ps',
               pending := foldr (insort_key seqNo)
                            (map sentEntry (filter (\<lambda>a. sentPeer a = i) (inflight d)))
                            (pending d),
               inflight := filter (\<lambda>a. sentPeer a \<noteq> i) (inflight d)\<rparr>))"

text \<open>
  Modelled from the spec: the events the distributor's single writer applies (section 5;
  missing). A connecting peer is given by what its handshake announced and its budget.
\<close>

datatype event =
    Submit request "peer \<Rightarrow> bool" "peer \<Rightarrow> nat"
  | Cancel nat
  | Complete nat outcome
  | PeerConnected peer_id nat nat nat nat nat
  | PeerDisconnected peer_id

text \<open>Modelled from the spec: the application of one event (section 5; missing).\<close>

fun step :: "distributor \<Rightarrow> event \<Rightarrow> distributor" where
  "step d (Submit r cs c) = snd (submit d r cs c)"
| "step d (Cancel h) = cancel d h"
| "step d (Complete h out) = complete d h out"
| "step d (PeerConnected i v h td budget now) = peerConnected d (newPeer i v h td budget now)"
| "step d (PeerDisconnected i) = peerDisconnected d i"

text \<open>Modelled from the spec: the events applied one after the other (section 5; missing).\<close>

fun run :: "distributor \<Rightarrow> event list \<Rightarrow> distributor" where
  "run d [] = d"
| "run d (ev # evs) = run (step d ev) evs"

text \<open>
  The cost that the assignments in flight have taken from a peer, and the accounting that
  every reachable distributor keeps: identifiers are unique, each peer's free capacity is
  not negative and is its budget less the cost in flight, and every assignment in flight is
  to a registered peer.
\<close>

definition load :: "assignment list \<Rightarrow> peer_id \<Rightarrow> nat" where
  "load sent i = sum_list (map sentCost (filter (\<lambda>a. sentPeer a = i) sent))"

definition accounted :: "peer list \<Rightarrow> assignment list \<Rightarrow> bool" where
  "accounted ps sent =
     (distinct (map peerID ps)
      \<and> (\<forall>p \<in> set ps. 0 \<le> free p \<and> free p + int (load sent (peerID p)) = int (capacity p))
      \<and> (\<forall>a \<in> set sent. sentPeer a \<in> peerID ` set ps))"

definition settled :: "distributor \<Rightarrow> bool" where
  "settled d = accounted (members (peers d)) (inflight d)"

section \<open>Concrete inputs\<close>

definition exampleEnv :: "nat mobile_env" where
  "exampleEnv =
     \<lparr>clientIdentifier = ''Netk'',
      params_Version = ''1.6.7'',
      params_DiscoveryV5Bootnodes = [''enode://a@10.0.0.1:30303''],
      discv5_MustParseNode = (\<lambda>url. url),
      filepath_Join = (\<lambda>a b. a @ ''/'' @ b),
      node_New_err = (\<lambda>conf. None),
      Register_err = (\<lambda>stack constructor. None),
      json_Unmarshal = (\<lambda>s. if s = ''{}'' then Inr \<lparr>Config = None, Alloc = ''''\<rparr>
                              else Inl ''unexpected end of JSON input''),
      TestnetGenesis = ''{}'',
      params_TestnetChainConfig = 3,
      eth_DefaultConfig =
        \<lparr>Genesis = None, NetworkId = 1, SyncMode = FastSync, DatabaseCache = 128,
         GasPrice = Some 18000000000,
         GPO = \<lparr>Blocks = 10, Percentile = 50, Default = None\<rparr>\<rparr>\<rparr>"

definition exampleConfig :: NodeConfig where
  "exampleConfig =
     \<lparr>BootstrapNodes = None,
      MaxPeers = 0,
      NetworkChainEnabled = True,
      NetworkChainNetworkID = 1,
      NetworkChainGenesis = ''{}'',
      NetworkChainDatabaseCache = 16,
      NetworkChainNetStats = '''',
      WhisperEnabled = False\<rparr>"

definition exampleEthConfig :: "nat eth_Config" where
  "exampleEthConfig =
     \<lparr>Genesis = None, NetworkId = 3, SyncMode = LightSync, DatabaseCache = 16,
      GasPrice = Some 18000000000,
      GPO = \<lparr>Blocks = 10, Percentile = 50, Default = None\<rparr>\<rparr>"

definition exampleLesEnv :: "go_error option \<Rightarrow> nat les_env" where
  "exampleLesEnv genesisErr =
     \<lparr>CreateDB_err = None,
      SetupGenesisBlock_chainConfig = 7,
      SetupGenesisBlock_genesisHash = 42,
      SetupGenesisBlock_genesisErr = genesisErr,
      NewLightChain_err = None,
      NewProtocolManager_err = None\<rparr>"

definition exampleFailingLesEnv :: "nat les_env" where
  "exampleFailingLesEnv =
     (exampleLesEnv (Some (ConfigCompatError 100)))
       \<lparr>NewLightChain_err := Some (errorString ''invalid chain head'')\<rparr>"

definition exampleOps :: "peerSet_op list" where
  "exampleOps =
     [DoRegister (newPeer 1 2 100 5 1 0),
      DoRegister (newPeer 2 2 120 9 1 0),
      DoRegister (newPeer 1 3 130 11 4 7),
      DoRegister (newPeer 3 1 90 4 1 0),
      DoUnregister 1,
      DoUnregister 8]"

definition exampleRequest :: request where
  "exampleRequest = \<lparr>kind = HeaderByNumber, params = 5, deadline = 10\<rparr>"

definition exampleEvents :: "event list" where
  "exampleEvents =
     [PeerConnected 1 2 100 5 2 0,
      Submit exampleRequest (\<lambda>p. True) (\<lambda>p. 1),
      Submit exampleRequest (\<lambda>p. True) (\<lambda>p. 1),
      Submit exampleRequest (\<lambda>p. True) (\<lambda>p. 1),
      Complete 0 Succeeded,
      Complete 1 Failed]"

section \<open>\<open>NewNode\<close>: defaults, genesis and services\<close>

lemma Register_config: "Register E s c = Inr s' \<Longrightarrow> config s' = config s"
  by (auto simp: Register_def split: option.splits)

lemma Register_serviceFuncs:
  "Register E s c = Inr s' \<Longrightarrow> serviceFuncs s' = serviceFuncs s @ [c]"
  by (auto simp: Register_def split: option.splits)

lemma registerServices_config:
  "registerServices E g c s = Inr s' \<Longrightarrow> config s' = config s"
  by (auto simp: registerServices_def Let_def split: if_splits sum.splits dest!: Register_config)

lemma registerServices_les_first:
  "registerServices E g c s = Inr s' \<Longrightarrow> NetworkChainEnabled c \<Longrightarrow> serviceFuncs s = [] \<Longrightarrow>
   hd (serviceFuncs s') = les_New (ethConf E g c)"
  by (auto simp: registerServices_def Let_def split: if_splits sum.splits dest!: Register_serviceFuncs)

lemma useDefaults_MaxPeers:
  "MaxPeers (useDefaults E cfg) = (case cfg of None \<Rightarrow> 25 | Some c \<Rightarrow> if MaxPeers c = 0 then 25 else MaxPeers c)"
  by (auto simp: useDefaults_def Let_def NewNodeConfig_def defaultNodeConfig_def split: option.splits)

lemma useDefaults_BootstrapNodes: "BootstrapNodes (useDefaults E cfg) \<noteq> None"
  by (auto simp: useDefaults_def Let_def NewNodeConfig_def defaultNodeConfig_def split: option.splits)

text \<open>
  Claim C8. For every \<open>NodeConfig\<close> whose \<open>MaxPeers\<close> is 0, \<open>NewNode\<close> puts the default 25
  in its place before it builds the P2P configuration: the configuration handed to
  \<open>node.New\<close> has \<open>MaxPeers\<close> 25, the caller's configuration is left with 25, and every
  node that \<open>NewNode\<close> returns has a P2P \<open>MaxPeers\<close> of 25, not 0.
\<close>

theorem NewNode_zero_MaxPeers_is_25:
  assumes "MaxPeers cfg = 0"
  shows "P2P_MaxPeers (P2P (nodeConf E datadir (useDefaults E (Some cfg)))) = 25
       \<and> MaxPeers (snd (NewNode E datadir (Some cfg))) = 25
       \<and> (\<forall>n. fst (NewNode E datadir (Some cfg)) = Inr n \<longrightarrow> P2P_MaxPeers (P2P (config n)) = 25)"
proof -
  let ?c = "useDefaults E (Some cfg)"
  have m: "MaxPeers ?c = 25" using assms by (simp add: useDefaults_MaxPeers)
  have a: "P2P_MaxPeers (P2P (nodeConf E datadir ?c)) = 25"
    using m by (simp add: nodeConf_def)
  have pg: "\<And>g c'. parseGenesis E ?c = Inr (g, c') \<Longrightarrow> MaxPeers c' = 25"
    using m by (auto simp: parseGenesis_def split: if_splits sum.splits)
  have b: "MaxPeers (snd (NewNode E datadir (Some cfg))) = 25"
    using m pg by (auto simp: NewNode_def Let_def split: sum.splits)
  have c: "P2P_MaxPeers (P2P (config n)) = 25" if "fst (NewNode E datadir (Some cfg)) = Inr n" for n
  proof -
    from that obtain g c' where "registerServices E g c' \<lparr>config = nodeConf E datadir ?c, serviceFuncs = []\<rparr> = Inr n"
      by (auto simp: NewNode_def Let_def node_New_def split: sum.splits option.splits)
    from registerServices_config[OF this] a show ?thesis by simp
  qed
  from a b c show ?thesis by blast
qed

theorem NewNode_zero_MaxPeers_is_25_witness:
  "MaxPeers exampleConfig = 0
   \<and> (\<exists>n. fst (NewNode exampleEnv ''/data'' (Some exampleConfig)) = Inr n
          \<and> P2P_MaxPeers (P2P (config n)) = 25)"
proof -
  have h: "MaxPeers exampleConfig = 0" by (simp add: exampleConfig_def)
  have ok: "\<exists>n. fst (NewNode exampleEnv ''/data'' (Some exampleConfig)) = Inr n"
    by (simp add: NewNode_def useDefaults_def nodeConf_def node_New_def parseGenesis_def
        registerServices_def Register_def ethConf_def exampleEnv_def exampleConfig_def
        defaultNodeConfig_def FoundationBootnodes_def Size_def Let_def)
  from NewNode_zero_MaxPeers_is_25[OF h, of exampleEnv "''/data''"] ok h
  show ?thesis by blast
qed

lemma useDefaults_other_fields:
  "NetworkChainGenesis (useDefaults E (Some c)) = NetworkChainGenesis c"
  "NetworkChainNetworkID (useDefaults E (Some c)) = NetworkChainNetworkID c"
  "NetworkChainEnabled (useDefaults E (Some c)) = NetworkChainEnabled c"
  "NetworkChainDatabaseCache (useDefaults E (Some c)) = NetworkChainDatabaseCache c"
  by (auto simp: useDefaults_def Let_def split: option.splits)

text \<open>
  Claim C9. For every \<open>NodeConfig\<close> whose \<open>NetworkChainGenesis\<close> is the text that
  \<open>TestnetGenesis()\<close> returns (a JSON text, so not empty), once the stack is created and
  the text parsed, \<open>NewNode\<close> replaces the parsed genesis' chain configuration by the
  testnet one, and a \<open>NetworkChainNetworkID\<close> of 1 is rewritten to 3, in the caller's
  configuration and in the \<open>eth.Config\<close> the light-client service is registered with.
\<close>

theorem NewNode_testnet_genesis:
  assumes gen: "NetworkChainGenesis cfg = TestnetGenesis E"
    and nonempty: "TestnetGenesis E \<noteq> ''''"
    and parsed: "json_Unmarshal E (TestnetGenesis E) = Inr g"
    and stack: "node_New_err E (nodeConf E datadir (useDefaults E (Some cfg))) = None"
  shows "parseGenesis E (useDefaults E (Some cfg)) =
           Inr (Some (g\<lparr>Config := Some (params_TestnetChainConfig E)\<rparr>),
                (useDefaults E (Some cfg))
                  \<lparr>NetworkChainNetworkID :=
                     (if NetworkChainNetworkID cfg = 1 then 3 else NetworkChainNetworkID cfg)\<rparr>)
       \<and> NetworkChainNetworkID (snd (NewNode E datadir (Some cfg))) =
           (if NetworkChainNetworkID cfg = 1 then 3 else NetworkChainNetworkID cfg)
       \<and> (\<forall>n. NetworkChainEnabled cfg \<longrightarrow> fst (NewNode E datadir (Some cfg)) = Inr n \<longrightarrow>
             hd (serviceFuncs n) =
               les_New ((eth_DefaultConfig E)
                 \<lparr>Genesis := Some (g\<lparr>Config := Some (params_TestnetChainConfig E)\<rparr>),
                  SyncMode := LightSync,
                  NetworkId :=
                    (if NetworkChainNetworkID cfg = 1 then 3 else NetworkChainNetworkID cfg),
                  DatabaseCache := NetworkChainDatabaseCache cfg\<rparr>))"
proof -
  let ?c = "useDefaults E (Some cfg)"
  let ?id = "if NetworkChainNetworkID cfg = 1 then 3 else NetworkChainNetworkID cfg"
  let ?g = "Some (g\<lparr>Config := Some (params_TestnetChainConfig E)\<rparr>)"
  let ?c' = "?c\<lparr>NetworkChainNetworkID := ?id\<rparr>"
  have a: "parseGenesis E ?c = Inr (?g, ?c')"
    using gen nonempty parsed by (simp add: parseGenesis_def useDefaults_other_fields)
  have new: "NewNode E datadir (Some cfg) =
               (registerServices E ?g ?c' \<lparr>config = nodeConf E datadir ?c, serviceFuncs = []\<rparr>, ?c')"
    using stack a by (simp add: NewNode_def node_New_def Let_def)
  have b: "NetworkChainNetworkID (snd (NewNode E datadir (Some cfg))) = ?id"
    by (simp add: new)
  have c: "hd (serviceFuncs n) = les_New (ethConf E ?g ?c')"
    if "NetworkChainEnabled cfg" "fst (NewNode E datadir (Some cfg)) = Inr n" for n
    using that registerServices_les_first[of E ?g ?c' _ n]
    by (simp add: new useDefaults_other_fields)
  have d: "ethConf E ?g ?c' = (eth_DefaultConfig E)
                 \<lparr>Genesis := ?g, SyncMode := LightSync, NetworkId := ?id,
                  DatabaseCache := NetworkChainDatabaseCache cfg\<rparr>"
    by (simp add: ethConf_def useDefaults_other_fields)
  from a b c d show ?thesis by simp
qed

theorem NewNode_testnet_genesis_witness:
  "NetworkChainGenesis exampleConfig = TestnetGenesis exampleEnv
   \<and> TestnetGenesis exampleEnv \<noteq> ''''
   \<and> json_Unmarshal exampleEnv (TestnetGenesis exampleEnv) = Inr \<lparr>Config = None, Alloc = ''''\<rparr>
   \<and> NetworkChainNetworkID exampleConfig = 1
   \<and> NetworkChainEnabled exampleConfig
   \<and> NetworkChainNetworkID (snd (NewNode exampleEnv ''/data'' (Some exampleConfig))) = 3
   \<and> (\<exists>n. fst (NewNode exampleEnv ''/data'' (Some exampleConfig)) = Inr n
          \<and> hd (serviceFuncs n) =
              les_New \<lparr>Genesis = Some \<lparr>Config = Some 3, Alloc = ''''\<rparr>, NetworkId = 3,
                       SyncMode = LightSync, DatabaseCache = 16,
                       GasPrice = Some 18000000000,
                       GPO = \<lparr>Blocks = 10, Percentile = 50, Default = None\<rparr>\<rparr>)"
proof -
  have h1: "NetworkChainGenesis exampleConfig = TestnetGenesis exampleEnv"
    by (simp add: exampleConfig_def exampleEnv_def)
  have h2: "TestnetGenesis exampleEnv \<noteq> ''''" by (simp add: exampleEnv_def)
  have h3: "json_Unmarshal exampleEnv (TestnetGenesis exampleEnv) = Inr \<lparr>Config = None, Alloc = ''''\<rparr>"
    by (simp add: exampleEnv_def)
  have h4: "node_New_err exampleEnv
              (nodeConf exampleEnv ''/data'' (useDefaults exampleEnv (Some exampleConfig))) = None"
    by (simp add: exampleEnv_def)
  have ok: "\<exists>n. fst (NewNode exampleEnv ''/data'' (Some exampleConfig)) = Inr n"
    by (simp add: NewNode_def useDefaults_def nodeConf_def node_New_def parseGenesis_def
        registerServices_def Register_def ethConf_def exampleEnv_def exampleConfig_def
        defaultNodeConfig_def FoundationBootnodes_def Size_def Let_def)
  have e: "NetworkChainNetworkID exampleConfig = 1" "NetworkChainEnabled exampleConfig"
    "NetworkChainDatabaseCache exampleConfig = 16"
    by (simp_all add: exampleConfig_def)
  have d: "eth_DefaultConfig exampleEnv =  \<lparr>Genesis = None, NetworkId = 1, SyncMode = FastSync, DatabaseCache = 128,
         GasPrice = Some 18000000000,
         GPO = \<lparr>Blocks = 10, Percentile = 50, Default = None\<rparr>\<rparr>"
    "params_TestnetChainConfig exampleEnv = 3"
    by (simp_all add: exampleEnv_def)
  from NewNode_testnet_genesis[OF h1 h2 h3 h4] ok h1 h2 h3 e d
  show ?thesis by auto
qed

section \<open>\<open>les.New\<close>: the genesis error\<close>

lemma construct_compat:
  "fst (construct E cfg c h (Some (ConfigCompatError r)) t) = fst (construct E cfg c h None t)"
  by (simp add: construct_def Let_def split: option.splits)

lemma construct_compat_calls:
  assumes "NewLightChain_err E = None"
  shows "\<exists>pre post. snd (construct E cfg c h None t) = pre @ post
           \<and> last pre = light_NewLightChain c
           \<and> snd (construct E cfg c h (Some (ConfigCompatError r)) t) =
               pre @ [SetHead r, core_WriteChainConfig h c] @ post"
proof -
  let ?pre = "t @ [newPeerSet, newRequestDistributor, eth_CreateConsensusEngine c,
                   NewLesTxRelay, newServerPool, newRetrieveManager, NewLesOdr,
                   light_NewLightChain c]"
  let ?post = "[light_NewTxPool c, NewProtocolManager c (NetworkId cfg)] @
               (case NewProtocolManager_err E of Some err \<Rightarrow> []
                | None \<Rightarrow> [gasprice_NewOracle (gpoParams cfg)])"
  have "snd (construct E cfg c h None t) = ?pre @ ?post"
    using assms by (simp add: construct_def Let_def split: option.splits)
  moreover have "last ?pre = light_NewLightChain c" by simp
  moreover have "snd (construct E cfg c h (Some (ConfigCompatError r)) t) =
               ?pre @ [SetHead r, core_WriteChainConfig h c] @ ?post"
    using assms by (simp add: construct_def Let_def split: option.splits)
  ultimately show ?thesis by blast
qed

text \<open>
  Claim C10, as the code has it. When \<open>core.SetupGenesisBlock\<close> reports an error that is
  not a \<open>*params.ConfigCompatError\<close>, \<open>les.New\<close> returns that error, having made no further
  call. When it reports a \<open>*params.ConfigCompatError\<close>, \<open>New\<close> does not return at that check
  and ends as it does without a genesis error: when \<open>light.NewLightChain\<close> fails, \<open>New\<close>
  returns its error and has rewound nothing; when the light chain is created, \<open>New\<close> sets
  the chain's head to the error's \<open>RewindTo\<close> and writes the chain configuration under the
  genesis hash, the other calls being those of a construction without a genesis error, in
  the same order; and it succeeds when the protocol manager is created as well.
\<close>

theorem New_genesis_error:
  assumes db: "CreateDB_err E = None"
  shows "(\<forall>err. SetupGenesisBlock_genesisErr E = Some err \<and> (\<forall>r. err \<noteq> ConfigCompatError r) \<longrightarrow>
            New E cfg = (Inl err, [eth_CreateDB ''lightchaindata'',
                                   core_SetupGenesisBlock (Genesis cfg)]))
       \<and> (\<forall>r. SetupGenesisBlock_genesisErr E = Some (ConfigCompatError r) \<longrightarrow>
            fst (New E cfg) = fst (New (E\<lparr>SetupGenesisBlock_genesisErr := None\<rparr>) cfg)
            \<and> (\<forall>err. NewLightChain_err E = Some err \<longrightarrow>
                 fst (New E cfg) = Inl err
                 \<and> snd (New E cfg) = snd (New (E\<lparr>SetupGenesisBlock_genesisErr := None\<rparr>) cfg))
            \<and> (NewLightChain_err E = None \<longrightarrow>
                 (\<exists>pre post.
                    snd (New (E\<lparr>SetupGenesisBlock_genesisErr := None\<rparr>) cfg) = pre @ post
                    \<and> last pre = light_NewLightChain (SetupGenesisBlock_chainConfig E)
                    \<and> snd (New E cfg) =
                        pre @ [SetHead r,
                               core_WriteChainConfig (SetupGenesisBlock_genesisHash E)
                                 (SetupGenesisBlock_chainConfig E)] @ post))
            \<and> (NewLightChain_err E = None \<and> NewProtocolManager_err E = None \<longrightarrow>
                 (\<exists>eth. fst (New E cfg) = Inr eth)))"
proof -
  let ?E0 = "E\<lparr>SetupGenesisBlock_genesisErr := None\<rparr>"
  let ?t1 = "[eth_CreateDB ''lightchaindata'', core_SetupGenesisBlock (Genesis cfg)]"
  let ?c = "SetupGenesisBlock_chainConfig E"
  let ?h = "SetupGenesisBlock_genesisHash E"
  have other: "New E cfg = (Inl err, ?t1)"
    if "SetupGenesisBlock_genesisErr E = Some err \<and> (\<forall>r. err \<noteq> ConfigCompatError r)" for err
    using that db by (cases err) (simp_all add: New_def Let_def)
  have "construct ?E0 cfg ?c ?h None ?t1 = construct E cfg ?c ?h None ?t1"
    by (simp add: construct_def Let_def split: option.splits)
  then have n0: "New ?E0 cfg = construct E cfg ?c ?h None ?t1"
    using db by (simp add: New_def Let_def)
  have compat: "fst (New E cfg) = fst (New ?E0 cfg)
      \<and> (\<forall>err. NewLightChain_err E = Some err \<longrightarrow>
             fst (New E cfg) = Inl err \<and> snd (New E cfg) = snd (New ?E0 cfg))
      \<and> (NewLightChain_err E = None \<longrightarrow>
             (\<exists>pre post. snd (New ?E0 cfg) = pre @ post
                \<and> last pre = light_NewLightChain ?c
                \<and> snd (New E cfg) = pre @ [SetHead r, core_WriteChainConfig ?h ?c] @ post))
      \<and> (NewLightChain_err E = None \<and> NewProtocolManager_err E = None \<longrightarrow>
             (\<exists>eth. fst (New E cfg) = Inr eth))"
    if c: "SetupGenesisBlock_genesisErr E = Some (ConfigCompatError r)" for r
  proof -
    have n: "New E cfg = construct E cfg ?c ?h (Some (ConfigCompatError r)) ?t1"
      using db c by (simp add: New_def Let_def)
    have 1: "fst (New E cfg) = fst (New ?E0 cfg)"
      by (simp add: n n0 construct_compat)
    have 2: "fst (New E cfg) = Inl err \<and> snd (New E cfg) = snd (New ?E0 cfg)"
      if "NewLightChain_err E = Some err" for err
      using that by (simp add: n n0 construct_def Let_def)
    have 3: "\<exists>pre post. snd (New ?E0 cfg) = pre @ post
                \<and> last pre = light_NewLightChain ?c
                \<and> snd (New E cfg) = pre @ [SetHead r, core_WriteChainConfig ?h ?c] @ post"
      if "NewLightChain_err E = None"
      using construct_compat_calls[OF that, of cfg ?c ?h ?t1 r] by (simp add: n n0)
    have 4: "\<exists>eth. fst (New E cfg) = Inr eth"
      if "NewLightChain_err E = None \<and> NewProtocolManager_err E = None"
      using that by (simp add: n construct_def Let_def)
    from 1 2 3 4 show ?thesis by blast
  qed
  from other compat show ?thesis by blast
qed

theorem New_genesis_error_witness:
  "CreateDB_err (exampleLesEnv (Some (errorString ''database already contains an incompatible genesis block''))) = None
   \<and> New (exampleLesEnv (Some (errorString ''database already contains an incompatible genesis block'')))
         exampleEthConfig =
       (Inl (errorString ''database already contains an incompatible genesis block''),
        [eth_CreateDB ''lightchaindata'', core_SetupGenesisBlock None])
   \<and> CreateDB_err (exampleLesEnv (Some (ConfigCompatError 100))) = None
   \<and> NewLightChain_err (exampleLesEnv (Some (ConfigCompatError 100))) = None
   \<and> NewProtocolManager_err (exampleLesEnv (Some (ConfigCompatError 100))) = None
   \<and> (\<exists>eth. fst (New (exampleLesEnv (Some (ConfigCompatError 100))) exampleEthConfig) = Inr eth)
   \<and> snd (New (exampleLesEnv (Some (ConfigCompatError 100))) exampleEthConfig) =
       [eth_CreateDB ''lightchaindata'', core_SetupGenesisBlock None, newPeerSet,
        newRequestDistributor, eth_CreateConsensusEngine 7, NewLesTxRelay, newServerPool,
        newRetrieveManager, NewLesOdr, light_NewLightChain 7,
        SetHead 100, core_WriteChainConfig 42 7,
        light_NewTxPool 7, NewProtocolManager 7 3,
        gasprice_NewOracle \<lparr>Blocks = 10, Percentile = 50, Default = Some 18000000000\<rparr>]
   \<and> CreateDB_err exampleFailingLesEnv = None
   \<and> SetupGenesisBlock_genesisErr exampleFailingLesEnv = Some (ConfigCompatError 100)
   \<and> NewLightChain_err exampleFailingLesEnv = Some (errorString ''invalid chain head'')
   \<and> fst (New exampleFailingLesEnv exampleEthConfig) = Inl (errorString ''invalid chain head'')"
proof -
  let ?m = "''database already contains an incompatible genesis block''"
  let ?E1 = "exampleLesEnv (Some (errorString ?m))"
  let ?E2 = "exampleLesEnv (Some (ConfigCompatError 100))"
  let ?E3 = "exampleFailingLesEnv"
  have h1: "CreateDB_err ?E1 = None" and h2: "CreateDB_err ?E2 = None"
    and h3: "CreateDB_err ?E3 = None"
    by (simp_all add: exampleLesEnv_def exampleFailingLesEnv_def)
  have g1: "SetupGenesisBlock_genesisErr ?E1 = Some (errorString ?m)
            \<and> (\<forall>r. errorString ?m \<noteq> ConfigCompatError r)"
    by (simp add: exampleLesEnv_def)
  have g2: "SetupGenesisBlock_genesisErr ?E2 = Some (ConfigCompatError 100)"
    "NewLightChain_err ?E2 = None" "NewProtocolManager_err ?E2 = None"
    by (simp_all add: exampleLesEnv_def)
  have g3: "SetupGenesisBlock_genesisErr ?E3 = Some (ConfigCompatError 100)"
    "NewLightChain_err ?E3 = Some (errorString ''invalid chain head'')"
    by (simp_all add: exampleLesEnv_def exampleFailingLesEnv_def)
  have gen: "Genesis exampleEthConfig = None" by (simp add: exampleEthConfig_def)
  have a: "New ?E1 exampleEthConfig =
       (Inl (errorString ?m), [eth_CreateDB ''lightchaindata'', core_SetupGenesisBlock None])"
    using New_genesis_error[OF h1, of exampleEthConfig] g1 gen by simp
  have b: "\<exists>eth. fst (New ?E2 exampleEthConfig) = Inr eth"
    using New_genesis_error[OF h2, of exampleEthConfig] g2 by blast
  have c: "snd (New ?E2 exampleEthConfig) =
       [eth_CreateDB ''lightchaindata'', core_SetupGenesisBlock None, newPeerSet,
        newRequestDistributor, eth_CreateConsensusEngine 7, NewLesTxRelay, newServerPool,
        newRetrieveManager, NewLesOdr, light_NewLightChain 7,
        SetHead 100, core_WriteChainConfig 42 7,
        light_NewTxPool 7, NewProtocolManager 7 3,
        gasprice_NewOracle \<lparr>Blocks = 10, Percentile = 50, Default = Some 18000000000\<rparr>]"
    by (simp add: New_def construct_def gpoParams_def exampleLesEnv_def exampleEthConfig_def Let_def)
  have d: "fst (New ?E3 exampleEthConfig) = Inl (errorString ''invalid chain head'')"
    using New_genesis_error[OF h3, of exampleEthConfig] g3 by blast
  from h1 h2 h3 g2 g3 a b c d show ?thesis by simp
qed

text \<open>
  The claim as it is written, "for a \<open>*params.ConfigCompatError\<close> it does not fail but
  instead rewinds the light chain", does not hold when \<open>light.NewLightChain\<close> fails: line
  108 returns its error before the rewind of lines 111 to 115 is reached.
\<close>

theorem New_compat_error_counterexample:
  "CreateDB_err exampleFailingLesEnv = None
   \<and> SetupGenesisBlock_genesisErr exampleFailingLesEnv = Some (ConfigCompatError 100)
   \<and> New exampleFailingLesEnv exampleEthConfig =
       (Inl (errorString ''invalid chain head''),
        [eth_CreateDB ''lightchaindata'', core_SetupGenesisBlock None, newPeerSet,
         newRequestDistributor, eth_CreateConsensusEngine 7, NewLesTxRelay, newServerPool,
         newRetrieveManager, NewLesOdr, light_NewLightChain 7])
   \<and> SetHead 100 \<notin> set (snd (New exampleFailingLesEnv exampleEthConfig))"
  by (simp add: New_def construct_def exampleFailingLesEnv_def exampleLesEnv_def
      exampleEthConfig_def Let_def)

section \<open>Peer Set: unique identifiers\<close>

lemma pickBest_mem: "pickBest better xs = Some x \<Longrightarrow> x \<in> set xs"
  by (induction xs arbitrary: x) (auto split: option.splits if_splits)

lemma register_distinct:
  "distinct (map peerID (members ps)) \<Longrightarrow> register ps p = Inr ps' \<Longrightarrow>
   distinct (map peerID (members ps'))"
  by (auto simp: register_def split: if_splits)

lemma unregister_distinct:
  "distinct (map peerID (members ps)) \<Longrightarrow> unregister ps i = Inr ps' \<Longrightarrow>
   distinct (map peerID (members ps'))"
  by (auto simp: unregister_def distinct_map_filter split: if_splits)

lemma applyOps_distinct:
  "distinct (map peerID (members ps)) \<Longrightarrow> distinct (map peerID (members (applyOps ps ops)))"
proof (induction ps ops rule: applyOps.induct)
  case (1 ps)
  then show ?case by simp
next
  case (2 ps p ops)
  then show ?case
    by (cases "register ps p") (auto dest: register_distinct)
next
  case (3 ps i ops)
  then show ?case
    by (cases "unregister ps i") (auto dest: unregister_distinct)
qed

lemma bestPeer_registered:
  "bestPeer better ps predicate = Some q \<Longrightarrow> q \<in> set (members ps) \<and> predicate q"
  unfolding bestPeer_def allPeers_def by (drule pickBest_mem) simp

text \<open>
  Claim C4. After every sequence of register and unregister operations on a new Peer Set,
  no two entries of the set have the same peer identifier; \<open>register\<close> then fails with
  \<open>DuplicatePeer\<close> when the identifier is already in the set and otherwise adds the peer and
  publishes its addition to the subscribers; and a peer that \<open>bestPeer\<close> returns is an entry
  of the set (and satisfies the predicate), whatever the measure of "best".
\<close>

theorem peerSet_unique_identifiers:
  "distinct (map peerID (members (applyOps emptyPeerSet ops)))
   \<and> (\<forall>p. register (applyOps emptyPeerSet ops) p =
          (if \<exists>q \<in> set (members (applyOps emptyPeerSet ops)). peerID q = peerID p
           then Inl DuplicatePeer
           else Inr \<lparr>members = members (applyOps emptyPeerSet ops) @ [p],
                     published = published (applyOps emptyPeerSet ops) @ [PeerAdded (peerID p)]\<rparr>))
   \<and> (\<forall>better predicate q.
          bestPeer better (applyOps emptyPeerSet ops) predicate = Some q \<longrightarrow>
          q \<in> set (members (applyOps emptyPeerSet ops)) \<and> predicate q)"
proof (intro conjI allI impI)
  show "distinct (map peerID (members (applyOps emptyPeerSet ops)))"
    by (rule applyOps_distinct) (simp add: emptyPeerSet_def)
next
  fix p
  show "register (applyOps emptyPeerSet ops) p =
          (if \<exists>q \<in> set (members (applyOps emptyPeerSet ops)). peerID q = peerID p
           then Inl DuplicatePeer
           else Inr \<lparr>members = members (applyOps emptyPeerSet ops) @ [p],
                     published = published (applyOps emptyPeerSet ops) @ [PeerAdded (peerID p)]\<rparr>)"
    by (auto simp: register_def image_iff)
next
  fix better predicate q
  assume "bestPeer better (applyOps emptyPeerSet ops) predicate = Some q"
  then show "q \<in> set (members (applyOps emptyPeerSet ops))" and "predicate q"
    by (simp_all add: bestPeer_registered)
qed

theorem peerSet_unique_identifiers_witness:
  "applyOps emptyPeerSet exampleOps =
     \<lparr>members = [newPeer 2 2 120 9 1 0, newPeer 3 1 90 4 1 0],
      published = [PeerAdded 1, PeerAdded 2, PeerAdded 3, PeerRemoved 1]\<rparr>
   \<and> distinct (map peerID (members (applyOps emptyPeerSet exampleOps)))
   \<and> register (applyOps emptyPeerSet exampleOps) (newPeer 3 2 95 6 1 4) = Inl DuplicatePeer
   \<and> bestPeer (\<lambda>p q. chainDifficulty q < chainDifficulty p)
        (applyOps emptyPeerSet exampleOps) (\<lambda>p. 2 \<le> protocolVersion p)
       = Some (newPeer 2 2 120 9 1 0)
   \<and> newPeer 2 2 120 9 1 0 \<in> set (members (applyOps emptyPeerSet exampleOps))"
proof -
  have ops: "applyOps emptyPeerSet exampleOps =
     \<lparr>members = [newPeer 2 2 120 9 1 0, newPeer 3 1 90 4 1 0],
      published = [PeerAdded 1, PeerAdded 2, PeerAdded 3, PeerRemoved 1]\<rparr>"
    by (simp add: exampleOps_def emptyPeerSet_def register_def unregister_def newPeer_def)
  have best: "bestPeer (\<lambda>p q. chainDifficulty q < chainDifficulty p)
        (applyOps emptyPeerSet exampleOps) (\<lambda>p. 2 \<le> protocolVersion p)
       = Some (newPeer 2 2 120 9 1 0)"
    by (simp add: ops bestPeer_def allPeers_def newPeer_def)
  have dup: "\<exists>q \<in> set (members (applyOps emptyPeerSet exampleOps)).
               peerID q = peerID (newPeer 3 2 95 6 1 4)"
    by (simp add: ops newPeer_def)
  note inst = peerSet_unique_identifiers[of exampleOps]
  from inst have 1: "distinct (map peerID (members (applyOps emptyPeerSet exampleOps)))"
    by blast
  from inst dup have 2: "register (applyOps emptyPeerSet exampleOps) (newPeer 3 2 95 6 1 4)
                        = Inl DuplicatePeer"
    by presburger
  from inst best have 3: "newPeer 2 2 120 9 1 0 \<in> set (members (applyOps emptyPeerSet exampleOps))"
    by blast
  from ops 1 2 best 3 show ?thesis by blast
qed

section \<open>Request Distributor: capacity accounting\<close>

lemma selectPeer_eligible: "selectPeer ps e = Some p \<Longrightarrow> p \<in> set ps \<and> eligible e p"
  unfolding selectPeer_def by (drule pickBest_mem) simp

lemma charge_ids: "map peerID (charge ps i c) = map peerID ps"
  by (induction ps) (auto simp: charge_def)

lemma restore_ids: "map peerID (restore ps i c) = map peerID ps"
  by (induction ps) (auto simp: restore_def)

lemma same_id_same_peer:
  "distinct (map peerID ps) \<Longrightarrow> p \<in> set ps \<Longrightarrow> q \<in> set ps \<Longrightarrow> peerID p = peerID q \<Longrightarrow> p = q"
  by (meson distinct_map inj_onD)

lemma load_append: "load (xs @ ys) i = load xs i + load ys i"
  by (simp add: load_def)

lemma load_single:
  "load [\<lparr>sentEntry = e, sentPeer = j, sentCost = c\<rparr>] i = (if j = i then c else 0)"
  by (simp add: load_def)

lemma accounted_charge:
  assumes acc: "accounted ps sent" and p: "p \<in> set ps" and c: "int c \<le> free p"
  shows "accounted (charge ps (peerID p) c)
           (sent @ [\<lparr>sentEntry = e, sentPeer = peerID p, sentCost = c\<rparr>])"
proof -
  let ?a = "\<lparr>sentEntry = e, sentPeer = peerID p, sentCost = c\<rparr>"
  have d: "distinct (map peerID ps)" using acc by (simp add: accounted_def)
  have bal: "\<And>q. q \<in> set ps \<Longrightarrow> 0 \<le> free q \<and> free q + int (load sent (peerID q)) = int (capacity q)"
    using acc by (simp add: accounted_def)
  have own: "\<And>a. a \<in> set sent \<Longrightarrow> sentPeer a \<in> peerID ` set ps"
    using acc by (simp add: accounted_def)
  have 1: "distinct (map peerID (charge ps (peerID p) c))" using d by (simp add: charge_ids)
  have 2: "0 \<le> free q' \<and> free q' + int (load (sent @ [?a]) (peerID q')) = int (capacity q')"
    if "q' \<in> set (charge ps (peerID p) c)" for q'
  proof -
    from that obtain q where q: "q \<in> set ps"
      and q': "q' = (if peerID q = peerID p then q\<lparr>free := free q - int c\<rparr> else q)"
      by (auto simp: charge_def)
    show ?thesis
    proof (cases "peerID q = peerID p")
      case True
      then have "q = p" using same_id_same_peer[OF d q p] by simp
      then show ?thesis using q' bal[OF p] c by (simp add: load_append load_single)
    next
      case False
      then show ?thesis using q' bal[OF q] by (simp add: load_append load_single)
    qed
  qed
  have ids: "peerID ` set (charge ps (peerID p) c) = peerID ` set ps"
    using charge_ids[of ps "peerID p" c] by (metis list.set_map)
  have 3: "sentPeer a \<in> peerID ` set (charge ps (peerID p) c)" if "a \<in> set (sent @ [?a])" for a
    using that own p by (auto simp: ids)
  from 1 2 3 show ?thesis unfolding accounted_def by blast
qed

lemma accounted_scan:
  "accounted ps sent \<Longrightarrow> scan ps es = (ps', queued, new) \<Longrightarrow> accounted ps' (sent @ new)"
proof (induction es arbitrary: ps sent ps' queued new)
  case Nil
  then show ?case by simp
next
  case (Cons e es)
  show ?case
  proof (cases "selectPeer ps e")
    case None
    with Cons.prems(2) obtain q' where "scan ps es = (ps', q', new)"
      by (auto split: prod.splits)
    from Cons.IH[OF Cons.prems(1) this] show ?thesis .
  next
    case (Some p)
    let ?a = "\<lparr>sentEntry = e, sentPeer = peerID p, sentCost = cost e p\<rparr>"
    from Some Cons.prems(2) obtain new' where
      s: "scan (charge ps (peerID p) (cost e p)) es = (ps', queued, new')" and n: "new = ?a # new'"
      by (auto split: prod.splits)
    from selectPeer_eligible[OF Some] have p: "p \<in> set ps" and c: "int (cost e p) \<le> free p"
      by (simp_all add: eligible_def hasFreeCapacity_def)
    from Cons.IH[OF accounted_charge[OF Cons.prems(1) p c] s]
    show ?thesis by (simp add: n)
  qed
qed

lemma takeOut_load:
  "takeOut h sent = (Some a, rest) \<Longrightarrow>
   load sent i = load rest i + (if sentPeer a = i then sentCost a else 0) \<and> set rest \<subseteq> set sent"
proof (induction sent arbitrary: rest)
  case Nil
  then show ?case by simp
next
  case (Cons b bs)
  show ?case
  proof (cases "seqNo (sentEntry b) = h")
    case True
    with Cons.prems show ?thesis by (auto simp: load_def)
  next
    case False
    with Cons.prems obtain rest' where t: "takeOut h bs = (Some a, rest')" and r: "rest = b # rest'"
      by (auto split: prod.splits)
    from Cons.IH[OF t] show ?thesis by (auto simp: r load_def)
  qed
qed

lemma accounted_restore:
  assumes acc: "accounted ps sent" and t: "takeOut h sent = (Some a, rest)"
  shows "accounted (restore ps (sentPeer a) (sentCost a)) rest"
proof -
  have bal: "\<And>q. q \<in> set ps \<Longrightarrow> 0 \<le> free q \<and> free q + int (load sent (peerID q)) = int (capacity q)"
    using acc by (simp add: accounted_def)
  have ld: "\<And>i. load sent i = load rest i + (if sentPeer a = i then sentCost a else 0)"
    and sub: "set rest \<subseteq> set sent"
    using takeOut_load[OF t] by simp_all
  have 1: "distinct (map peerID (restore ps (sentPeer a) (sentCost a)))"
    using acc by (simp add: restore_ids accounted_def)
  have 2: "0 \<le> free q' \<and> free q' + int (load rest (peerID q')) = int (capacity q')"
    if "q' \<in> set (restore ps (sentPeer a) (sentCost a))" for q'
  proof -
    from that obtain q where q: "q \<in> set ps"
      and q': "q' = (if peerID q = sentPeer a then q\<lparr>free := free q + int (sentCost a)\<rparr> else q)"
      by (auto simp: restore_def)
    from bal[OF q] ld[of "peerID q"] q' show ?thesis by (auto split: if_splits)
  qed
  have ids: "peerID ` set (restore ps (sentPeer a) (sentCost a)) = peerID ` set ps"
    using restore_ids[of ps "sentPeer a" "sentCost a"] by (metis list.set_map)
  have 3: "sentPeer b \<in> peerID ` set (restore ps (sentPeer a) (sentCost a))" if "b \<in> set rest" for b
    using that sub acc by (auto simp: ids accounted_def)
  from 1 2 3 show ?thesis unfolding accounted_def by blast
qed

lemma load_unknown:
  "\<forall>a \<in> set sent. sentPeer a \<noteq> i \<Longrightarrow> load sent i = 0"
  by (induction sent) (auto simp: load_def)

lemma accounted_register:
  assumes acc: "accounted ps sent" and new: "peerID p \<notin> peerID ` set ps"
    and fresh: "free p = int (capacity p)"
  shows "accounted (ps @ [p]) sent"
proof -
  have own: "\<forall>a \<in> set sent. sentPeer a \<in> peerID ` set ps"
    using acc by (simp add: accounted_def)
  have "\<forall>a \<in> set sent. sentPeer a \<noteq> peerID p"
  proof
    fix a assume "a \<in> set sent"
    with own have "sentPeer a \<in> peerID ` set ps" by blast
    with new show "sentPeer a \<noteq> peerID p" by metis
  qed
  then have "load sent (peerID p) = 0" by (rule load_unknown)
  then show ?thesis using acc new fresh by (auto simp: accounted_def)
qed

lemma load_filter_other:
  "j \<noteq> i \<Longrightarrow> load (filter (\<lambda>a. sentPeer a \<noteq> i) sent) j = load sent j"
  by (induction sent) (auto simp: load_def)

lemma accounted_unregister:
  assumes acc: "accounted ps sent"
  shows "accounted (filter (\<lambda>p. peerID p \<noteq> i) ps) (filter (\<lambda>a. sentPeer a \<noteq> i) sent)"
  using acc by (auto simp: accounted_def distinct_map_filter load_filter_other)

lemma settled_reevaluate: "settled d \<Longrightarrow> settled (reevaluate d)"
  by (auto simp: settled_def reevaluate_def split: prod.splits dest: accounted_scan)

lemma settled_step: "settled d \<Longrightarrow> settled (step d ev)"
proof (cases ev)
  case (Submit r cs c)
  assume "settled d"
  then have "settled (d\<lparr>pending := pending d @ [\<lparr>seqNo = nextSeq d, req = r, canSend = cs, cost = c\<rparr>],
                    nextSeq := nextSeq d + 1\<rparr>)" by (simp add: settled_def)
  from settled_reevaluate[OF this] show ?thesis by (simp add: Submit submit_def)
next
  case (Cancel h)
  assume "settled d"
  then show ?thesis by (simp add: Cancel cancel_def settled_def)
next
  case (Complete h out)
  assume s: "settled d"
  show ?thesis
  proof (cases "takeOut h (inflight d)")
    case (Pair found rest)
    show ?thesis
    proof (cases found)
      case None
      then show ?thesis using s Pair by (simp add: Complete complete_def)
    next
      case (Some a)
      from s accounted_restore[of "members (peers d)" "inflight d" h a rest] Pair Some
      have "settled (d\<lparr>peers := (peers d)\<lparr>members := restore (members (peers d)) (sentPeer a) (sentCost a)\<rparr>,
               inflight := rest\<rparr>)" by (simp add: settled_def)
      from settled_reevaluate[OF this] show ?thesis using Pair Some by (simp add: Complete complete_def)
    qed
  qed
next
  case (PeerConnected i v h td budget now)
  assume s: "settled d"
  let ?p = "newPeer i v h td budget now"
  show ?thesis
  proof (cases "register (peers d) ?p")
    case (Inl err)
    then show ?thesis using s by (simp add: PeerConnected peerConnected_def)
  next
    case (Inr ps')
    then have new: "peerID ?p \<notin> peerID ` set (members (peers d))"
      and ps': "members ps' = members (peers d) @ [?p]"
      by (auto simp: register_def split: if_splits)
    have "free ?p = int (capacity ?p)" by (simp add: newPeer_def)
    from accounted_register[OF _ new this] s
    have "settled (d\<lparr>peers := ps'\<rparr>)" by (simp add: settled_def ps')
    from settled_reevaluate[OF this] show ?thesis using Inr by (simp add: PeerConnected peerConnected_def)
  qed
next
  case (PeerDisconnected i)
  assume s: "settled d"
  show ?thesis
  proof (cases "unregister (peers d) i")
    case (Inl err)
    then show ?thesis using s by (simp add: PeerDisconnected peerDisconnected_def)
  next
    case (Inr ps')
    then have ps': "members ps' = filter (\<lambda>p. peerID p \<noteq> i) (members (peers d))"
      by (auto simp: unregister_def split: if_splits)
    from accounted_unregister[of "members (peers d)" "inflight d" i] s
    have "settled (d\<lparr>peers := ps',
               pending := foldr (insort_key seqNo)
                            (map sentEntry (filter (\<lambda>a. sentPeer a = i) (inflight d)))
                            (pending d),
               inflight := filter (\<lambda>a. sentPeer a \<noteq> i) (inflight d)\<rparr>)"
      by (simp add: settled_def ps')
    from settled_reevaluate[OF this] show ?thesis using Inr by (simp add: PeerDisconnected peerDisconnected_def)
  qed
qed

lemma settled_run: "settled d \<Longrightarrow> settled (run d evs)"
  by (induction evs arbitrary: d) (auto intro: settled_step)

lemma settled_new: "settled newDistributor"
  by (simp add: settled_def newDistributor_def emptyPeerSet_def accounted_def)

lemma charge_restore: "restore (charge ps i c) i c = ps"
  by (induction ps) (auto simp: charge_def restore_def)

text \<open>
  Claim C3. After every sequence of distributor events (submissions, cancellations,
  completions by success, failure or cancellation, peers connecting and disconnecting,
  each followed by the assignments it makes possible), every registered peer's free
  capacity is not negative and not above its configured maximum. It is the maximum less
  the cost of the requests assigned to the peer and not yet completed: an assignment takes
  the request's cost from it and the completion gives the cost back, a restoration undoing
  a charge exactly.
\<close>

theorem distributor_capacity_bounds:
  "(\<forall>p \<in> set (members (peers (run newDistributor evs))).
       0 \<le> free p \<and> free p \<le> int (capacity p)
     \<and> free p = int (capacity p) - int (load (inflight (run newDistributor evs)) (peerID p)))
   \<and> (\<forall>i c. restore (charge (members (peers (run newDistributor evs))) i c) i c =
              members (peers (run newDistributor evs)))"
proof (intro conjI ballI allI)
  fix p assume p: "p \<in> set (members (peers (run newDistributor evs)))"
  have "settled (run newDistributor evs)" by (rule settled_run[OF settled_new])
  with p have bal: "0 \<le> free p \<and>
      free p + int (load (inflight (run newDistributor evs)) (peerID p)) = int (capacity p)"
    by (simp add: settled_def accounted_def)
  from bal show "0 \<le> free p" by simp
  from bal show "free p \<le> int (capacity p)" by linarith
  from bal show "free p = int (capacity p) - int (load (inflight (run newDistributor evs)) (peerID p))"
    by linarith
next
  fix i c
  show "restore (charge (members (peers (run newDistributor evs))) i c) i c =
          members (peers (run newDistributor evs))"
    by (rule charge_restore)
qed

theorem distributor_capacity_bounds_witness:
  "members (peers (run newDistributor exampleEvents)) = [(newPeer 1 2 100 5 2 0)\<lparr>free := 1\<rparr>]
   \<and> (newPeer 1 2 100 5 2 0)\<lparr>free := 1\<rparr> \<in> set (members (peers (run newDistributor exampleEvents)))
   \<and> capacity ((newPeer 1 2 100 5 2 0)\<lparr>free := 1\<rparr>) = 2
   \<and> load (inflight (run newDistributor exampleEvents)) 1 = 1
   \<and> 0 \<le> free ((newPeer 1 2 100 5 2 0)\<lparr>free := 1\<rparr>)
   \<and> free ((newPeer 1 2 100 5 2 0)\<lparr>free := 1\<rparr>) \<le> 2"
proof -
  let ?p = "(newPeer 1 2 100 5 2 0)\<lparr>free := 1\<rparr>"
  have ms: "members (peers (run newDistributor exampleEvents)) = [?p]"
    by (simp add: exampleEvents_def newDistributor_def emptyPeerSet_def submit_def complete_def
        peerConnected_def register_def reevaluate_def selectPeer_def eligible_def
        hasFreeCapacity_def charge_def restore_def newPeer_def exampleRequest_def)
  then have mem: "?p \<in> set (members (peers (run newDistributor exampleEvents)))" by simp
  have cap: "capacity ?p = 2" and fr: "free ?p = 1" and pid: "peerID ?p = 1"
    by (simp_all add: newPeer_def)
  from distributor_capacity_bounds[of exampleEvents] mem
  have b: "0 \<le> free ?p \<and> free ?p \<le> int (capacity ?p)
     \<and> free ?p = int (capacity ?p) - int (load (inflight (run newDistributor exampleEvents)) (peerID ?p))"
    by blast
  then have ld: "load (inflight (run newDistributor exampleEvents)) 1 = 1"
    by (simp add: newPeer_def)
  have bounds: "0 \<le> free ?p \<and> free ?p \<le> 2" by (simp add: newPeer_def)
  from ms mem cap ld bounds show ?thesis by blast
qed

end
